theory Spec2Isabelle
  imports Main
begin

section \<open>Data model\<close>

text \<open>
  The progression core of the puzzle backend lives in two route files:
  \<^verbatim>\<open>routes/puzzles.ts\<close> (listing and single-level fetch) and
  \<^verbatim>\<open>routes/progress.ts\<close> (get, save and reset of progress). Both work on three
  MongoDB collections. A collection is modelled as the list of its documents, in
  storage order; \<^verbatim>\<open>findOne\<close> returns the first document that matches.

  Object ids are opaque and only compared for equality, so they are natural numbers.
  A \<^verbatim>\<open>Date\<close> is its time value: the milliseconds since the epoch, an integer.
  The numbers \<^verbatim>\<open>gridRows\<close>, \<^verbatim>\<open>gridCols\<close> and \<^verbatim>\<open>levelOrder\<close> are integers.
  Every handler reads the clock once; the reading is the argument \<open>now\<close>.
  The model starts where a handler starts: the request has passed the
  \<^verbatim>\<open>authenticate\<close> middleware (which answers 401 or 403 itself) and its route
  parameter is a well-formed object id. The handlers' \<^verbatim>\<open>catch\<close> branches answer 500
  when a store call throws, as it does on a malformed id; the store of this model is
  total, so that branch has no counterpart here.
\<close>

type_synonym objectId = nat
type_synonym date = int

text \<open>\<^verbatim>\<open>models/Puzzle.ts\<close>, interface \<^verbatim>\<open>IPuzzle\<close>. The asset fields (image, playlist and
  audiobook urls) are copied to the responses unread and are left out.\<close>

record puzzle =
  pid :: objectId
  title :: string
  gridRows :: int
  gridCols :: int
  levelOrder :: int
  isActive :: bool

text \<open>\<^verbatim>\<open>models/UserProgress.ts\<close>, interface \<^verbatim>\<open>IUserProgress\<close>. The schema option
  \<^verbatim>\<open>timestamps: true\<close> makes the store maintain \<^verbatim>\<open>createdAt\<close> (set when the document
  is inserted) and \<^verbatim>\<open>updatedAt\<close> (set on every write). The document's own \<^verbatim>\<open>_id\<close> is
  never read by the routes and is left out.\<close>

record userProgress =
  userId :: objectId
  puzzleId :: objectId
  placedPieceIds :: "string list"
  isCompleted :: bool
  completedAt :: "date option"
  createdAt :: date
  updatedAt :: date

text \<open>Modelled from the spec: the user document (\<^verbatim>\<open>models/User.ts\<close> is not among the
  sources). The identity collaborator supplies a subscription tier per user; the routes
  read the field \<^verbatim>\<open>subscriptionTier\<close>, which may be undefined.\<close>

record user =
  uid :: objectId
  subscriptionTier :: "string option"

record db =
  puzzles :: "puzzle list"
  progress :: "userProgress list"
  users :: "user list"

datatype error = ValidationFailed | PuzzleNotFound | LevelLocked | DailyLimit

section \<open>Store operations\<close>

text \<open>\<^verbatim>\<open>findOneAndUpdate(filter, update, {upsert: true, new: true})\<close>: the first document
  matching the filter is updated in place; when none matches, the document \<open>ins\<close> is
  inserted. The updated or inserted document is returned with the new collection.\<close>

fun findOneAndUpdate :: "('a \<Rightarrow> bool) \<Rightarrow> ('a \<Rightarrow> 'a) \<Rightarrow> 'a \<Rightarrow> 'a list \<Rightarrow> 'a \<times> 'a list" where
  "findOneAndUpdate P f ins [] = (ins, [ins])"
| "findOneAndUpdate P f ins (x # xs) =
     (if P x then (f x, f x # xs)
      else (case findOneAndUpdate P f ins xs of (doc, ys) \<Rightarrow> (doc, x # ys)))"

text \<open>\<^verbatim>\<open>findOneAndDelete(filter)\<close>: the first matching document is removed.\<close>

fun findOneAndDelete :: "('a \<Rightarrow> bool) \<Rightarrow> 'a list \<Rightarrow> 'a list" where
  "findOneAndDelete P [] = []"
| "findOneAndDelete P (x # xs) = (if P x then xs else x # findOneAndDelete P xs)"

text \<open>\<^verbatim>\<open>countDocuments(filter)\<close>.\<close>

definition countDocuments :: "('a \<Rightarrow> bool) \<Rightarrow> 'a list \<Rightarrow> int" where
  "countDocuments P xs = int (length (filter P xs))"

section \<open>The progress routes\<close>

text \<open>\<^verbatim>\<open>GET /progress/:puzzleId\<close>.\<close>

definition get_progress :: "objectId \<Rightarrow> objectId \<Rightarrow> db \<Rightarrow> userProgress option" where
  "get_progress u p d = find (\<lambda>r. userId r = u \<and> puzzleId r = p) (progress d)"

text \<open>The body of the response to a save.\<close>

record save_response =
  message :: string
  sv_placedPieceIds :: "string list"
  sv_isCompleted :: bool
  sv_completedAt :: "date option"

text \<open>Lines 97 and 100 of \<^verbatim>\<open>routes/progress.ts\<close>: \<^verbatim>\<open>totalPieces\<close> is rows times columns,
  and the save completes the level when the array of the body is at least that long.\<close>

definition totalPieces :: "puzzle \<Rightarrow> int" where
  "totalPieces pz = gridRows pz * gridCols pz"

definition isCompletedBy :: "puzzle \<Rightarrow> string list \<Rightarrow> bool" where
  "isCompletedBy pz placed = (int (length placed) \<ge> totalPieces pz)"

text \<open>\<^verbatim>\<open>completedAt: isCompleted ? new Date() : null\<close>.\<close>

definition completionStamp :: "bool \<Rightarrow> date \<Rightarrow> date option" where
  "completionStamp c now = (if c then Some now else None)"

text \<open>The update of the upsert applied to an existing document: the three fields of
  \<^verbatim>\<open>$set\<close>, and \<^verbatim>\<open>updatedAt\<close>, which the store refreshes.\<close>

definition setProgress :: "string list \<Rightarrow> bool \<Rightarrow> date \<Rightarrow> userProgress \<Rightarrow> userProgress" where
  "setProgress placed c now r =
     r\<lparr>placedPieceIds := placed, isCompleted := c,
       completedAt := completionStamp c now, updatedAt := now\<rparr>"

text \<open>The document the upsert inserts when the user has none for the level: the
  fields of the filter, those of \<^verbatim>\<open>$set\<close>, and both timestamps.\<close>

definition newProgress :: "objectId \<Rightarrow> objectId \<Rightarrow> string list \<Rightarrow> bool \<Rightarrow> date \<Rightarrow> userProgress" where
  "newProgress u p placed c now =
     \<lparr>userId = u, puzzleId = p, placedPieceIds = placed, isCompleted = c,
      completedAt = completionStamp c now, createdAt = now, updatedAt = now\<rparr>"

text \<open>\<^verbatim>\<open>PUT /progress/:puzzleId\<close>. The body is \<open>None\<close> when it fails the schema
  \<^verbatim>\<open>{placedPieceIds: string[]}\<close>. The level is looked up with \<^verbatim>\<open>findById\<close>, which does
  not filter on \<^verbatim>\<open>isActive\<close>. No other check precedes the upsert.\<close>

definition put_progress ::
  "date \<Rightarrow> objectId \<Rightarrow> objectId \<Rightarrow> string list option \<Rightarrow> db \<Rightarrow> (error + save_response) \<times> db" where
  "put_progress now u p body d =
     (case body of
        None \<Rightarrow> (Inl ValidationFailed, d)
      | Some placed \<Rightarrow>
          (case find (\<lambda>z. pid z = p) (puzzles d) of
             None \<Rightarrow> (Inl PuzzleNotFound, d)
           | Some pz \<Rightarrow>
               (let isCompleted' = isCompletedBy pz placed
                in (case findOneAndUpdate
                          (\<lambda>r. userId r = u \<and> puzzleId r = p)
                          (setProgress placed isCompleted' now)
                          (newProgress u p placed isCompleted' now)
                          (progress d) of
                      (doc, recs) \<Rightarrow>
                        (Inr \<lparr>message = (if isCompleted' then ''Puzzle completed!''
                                          else ''Progress saved''),
                              sv_placedPieceIds = placedPieceIds doc,
                              sv_isCompleted = isCompleted doc,
                              sv_completedAt = completedAt doc\<rparr>,
                         d\<lparr>progress := recs\<rparr>)))))"

text \<open>\<^verbatim>\<open>DELETE /progress/:puzzleId\<close>.\<close>

definition delete_progress :: "objectId \<Rightarrow> objectId \<Rightarrow> db \<Rightarrow> db" where
  "delete_progress u p d =
     d\<lparr>progress := findOneAndDelete (\<lambda>r. userId r = u \<and> puzzleId r = p) (progress d)\<rparr>"

section \<open>The puzzle routes\<close>

text \<open>\<^verbatim>\<open>startOfDay.setUTCHours(0, 0, 0, 0)\<close>: the time value becomes
  \<^verbatim>\<open>Day(t) * msPerDay\<close> with \<^verbatim>\<open>Day(t) = floor(t / msPerDay)\<close>.\<close>

definition msPerDay :: int where
  "msPerDay = 86400000"

definition startOfDay :: "date \<Rightarrow> date" where
  "startOfDay now = (now div msPerDay) * msPerDay"

text \<open>\<^verbatim>\<open>user?.subscriptionTier || "free"\<close>: a missing user, an undefined tier and the
  empty string all give \<^verbatim>\<open>"free"\<close>.\<close>

definition tierOf :: "user option \<Rightarrow> string" where
  "tierOf usr =
     (case usr of
        None \<Rightarrow> ''free''
      | Some x \<Rightarrow> (case subscriptionTier x of
                     None \<Rightarrow> ''free''
                   | Some t \<Rightarrow> if t = [] then ''free'' else t))"

text \<open>\<^verbatim>\<open>progress && progress.placedPieceIds.length > 0\<close>.\<close>

definition hasExistingProgress :: "userProgress option \<Rightarrow> bool" where
  "hasExistingProgress prog =
     (case prog of None \<Rightarrow> False | Some r \<Rightarrow> length (placedPieceIds r) > 0)"

definition puzzlesStartedToday :: "date \<Rightarrow> objectId \<Rightarrow> db \<Rightarrow> int" where
  "puzzlesStartedToday now u d =
     countDocuments (\<lambda>r. userId r = u \<and> createdAt r \<ge> startOfDay now) (progress d)"

text \<open>The active level one position before \<open>p\<close>.\<close>

definition previousPuzzle :: "db \<Rightarrow> puzzle \<Rightarrow> puzzle option" where
  "previousPuzzle d p =
     find (\<lambda>q. levelOrder q = levelOrder p - 1 \<and> isActive q) (puzzles d)"

text \<open>The lock check of the single-level fetch: the level is beyond the first, an
  active previous level exists, and the user has no completed record for it.\<close>

definition levelLocked :: "db \<Rightarrow> objectId \<Rightarrow> puzzle \<Rightarrow> bool" where
  "levelLocked d u p =
     (if levelOrder p > 1 then
        (case previousPuzzle d p of
           None \<Rightarrow> False
         | Some q \<Rightarrow>
             find (\<lambda>r. userId r = u \<and> puzzleId r = pid q \<and> isCompleted r) (progress d) = None)
      else False)"

text \<open>The daily-limit check of the single-level fetch.\<close>

definition dailyLimitReached :: "date \<Rightarrow> objectId \<Rightarrow> userProgress option \<Rightarrow> db \<Rightarrow> bool" where
  "dailyLimitReached now u prog d =
     (if tierOf (find (\<lambda>x. uid x = u) (users d)) = ''free'' then
        (if \<not> hasExistingProgress prog then puzzlesStartedToday now u d \<ge> 1 else False)
      else False)"

text \<open>\<^verbatim>\<open>GET /puzzles/:id\<close>: not found, then locked, then the daily limit, then the
  level with the user's progress on it.\<close>

definition get_puzzle ::
  "date \<Rightarrow> objectId \<Rightarrow> objectId \<Rightarrow> db \<Rightarrow> error + (puzzle \<times> userProgress option)" where
  "get_puzzle now u i d =
     (case find (\<lambda>p. pid p = i \<and> isActive p) (puzzles d) of
        None \<Rightarrow> Inl PuzzleNotFound
      | Some p \<Rightarrow>
          if levelLocked d u p then Inl LevelLocked
          else
            (let prog = find (\<lambda>r. userId r = u \<and> puzzleId r = pid p) (progress d)
             in if dailyLimitReached now u prog d then Inl DailyLimit
                else Inr (p, prog)))"

text \<open>\<^verbatim>\<open>.filter(Boolean)\<close> on the orders found for the completed records: undefined
  (no active level with that id) and 0 are dropped.\<close>

fun truthy :: "int option \<Rightarrow> bool" where
  "truthy None = False"
| "truthy (Some n) = (n \<noteq> 0)"

definition completedLevels :: "puzzle list \<Rightarrow> userProgress list \<Rightarrow> int option set" where
  "completedLevels pzs recs =
     set (filter truthy
            (map (\<lambda>r. map_option levelOrder (find (\<lambda>pz. pid pz = puzzleId r) pzs))
                 (filter isCompleted recs)))"

text \<open>\<^verbatim>\<open>new Map(progressRecords.map(p => [p.puzzleId, p]))\<close>: a later entry replaces an
  earlier one with the same key.\<close>

definition progressMap :: "userProgress list \<Rightarrow> objectId \<Rightarrow> userProgress option" where
  "progressMap recs = map_of (rev (map (\<lambda>r. (puzzleId r, r)) recs))"

record puzzle_status =
  ps_puzzle :: puzzle
  isUnlocked :: bool
  ps_isCompleted :: bool
  ps_progress :: "(string list \<times> date option) option"

text \<open>The callback that builds one entry of the listing.\<close>

definition puzzleStatus ::
  "(objectId \<Rightarrow> userProgress option) \<Rightarrow> int option set \<Rightarrow> puzzle \<Rightarrow> puzzle_status" where
  "puzzleStatus pm done_orders p =
     (let prog = pm (pid p)
      in \<lparr>ps_puzzle = p,
          isUnlocked = (levelOrder p = 1 \<or> Some (levelOrder p - 1) \<in> done_orders),
          ps_isCompleted = (case prog of None \<Rightarrow> False | Some r \<Rightarrow> isCompleted r),
          ps_progress = map_option (\<lambda>r. (placedPieceIds r, completedAt r)) prog\<rparr>)"

text \<open>\<^verbatim>\<open>GET /puzzles\<close>: the active levels in ascending order, each with its status for
  the user.\<close>

definition list_puzzles :: "objectId \<Rightarrow> db \<Rightarrow> puzzle_status list" where
  "list_puzzles u d =
     (let pzs = sort_key levelOrder (filter isActive (puzzles d));
          progressRecords = filter (\<lambda>r. userId r = u) (progress d)
      in map (puzzleStatus (progressMap progressRecords) (completedLevels pzs progressRecords)) pzs)"

section \<open>Store constraints\<close>

text \<open>The constraints the store itself enforces: \<^verbatim>\<open>_id\<close> is the primary key of a
  collection, \<^verbatim>\<open>levelOrder\<close> is declared \<^verbatim>\<open>unique: true\<close> in the puzzle schema, and the
  progress schema has the compound unique index \<^verbatim>\<open>{userId: 1, puzzleId: 1}\<close>.\<close>

definition uniquePuzzles :: "db \<Rightarrow> bool" where
  "uniquePuzzles d = (distinct (map pid (puzzles d)) \<and> distinct (map levelOrder (puzzles d)))"

definition uniqueProgress :: "db \<Rightarrow> bool" where
  "uniqueProgress d = distinct (map (\<lambda>r. (userId r, puzzleId r)) (progress d))"

section \<open>Example stores\<close>

text \<open>Three levels at orders 1, 2 and 3, and a fourth at order 5, one position past
  a gap. User 7 is on the free tier. The clock of the examples reads 90000000, one hour
  and forty minutes into the second day of the epoch, whose midnight is 86400000.\<close>

definition levelA :: puzzle where
  "levelA = \<lparr>pid = 1, title = ''A'', gridRows = 2, gridCols = 2, levelOrder = 1, isActive = True\<rparr>"

definition levelB :: puzzle where
  "levelB = \<lparr>pid = 2, title = ''B'', gridRows = 3, gridCols = 3, levelOrder = 2, isActive = True\<rparr>"

definition levelC :: puzzle where
  "levelC = \<lparr>pid = 3, title = ''C'', gridRows = 2, gridCols = 2, levelOrder = 3, isActive = True\<rparr>"

definition levelE :: puzzle where
  "levelE = \<lparr>pid = 5, title = ''E'', gridRows = 2, gridCols = 2, levelOrder = 5, isActive = True\<rparr>"

definition freeUser :: user where
  "freeUser = \<lparr>uid = 7, subscriptionTier = Some ''free''\<rparr>"

text \<open>User 7 completed level A earlier today and has touched nothing else.\<close>

definition doneA :: userProgress where
  "doneA = \<lparr>userId = 7, puzzleId = 1, placedPieceIds = [''p1'', ''p2'', ''p3'', ''p4''],
            isCompleted = True, completedAt = Some 86500000,
            createdAt = 86500000, updatedAt = 86500000\<rparr>"

definition db_played :: db where
  "db_played = \<lparr>puzzles = [levelA, levelB, levelC], progress = [doneA], users = [freeUser]\<rparr>"

text \<open>User 7 saved level A today with no piece placed.\<close>

definition emptyA :: userProgress where
  "emptyA = \<lparr>userId = 7, puzzleId = 1, placedPieceIds = [],
             isCompleted = False, completedAt = None,
             createdAt = 86500000, updatedAt = 86500000\<rparr>"

definition db_touched :: db where
  "db_touched = \<lparr>puzzles = [levelA, levelB], progress = [emptyA], users = [freeUser]\<rparr>"

text \<open>User 7 saved level A on an earlier day with no piece placed.\<close>

definition staleA :: userProgress where
  "staleA = \<lparr>userId = 7, puzzleId = 1, placedPieceIds = [],
             isCompleted = False, completedAt = None,
             createdAt = 1000, updatedAt = 1000\<rparr>"

definition db_stale :: db where
  "db_stale = \<lparr>puzzles = [levelA, levelB], progress = [staleA], users = [freeUser]\<rparr>"

text \<open>Nobody has played yet.\<close>

definition db_fresh :: db where
  "db_fresh = \<lparr>puzzles = [levelA, levelB], progress = [], users = [freeUser]\<rparr>"

text \<open>A catalog with a gap: levels at orders 1 and 5 only.\<close>

definition db_gap :: db where
  "db_gap = \<lparr>puzzles = [levelA, levelE], progress = [], users = [freeUser]\<rparr>"

section \<open>Facts about the store operations\<close>

lemma findOneAndUpdate_fst:
  "fst (findOneAndUpdate P f ins xs) = (case find P xs of None \<Rightarrow> ins | Some x \<Rightarrow> f x)"
  by (induction xs) (auto split: prod.splits)

lemma findOneAndUpdate_find:
  assumes "P ins" and "\<And>x. P x \<Longrightarrow> P (f x)"
  shows "find P (snd (findOneAndUpdate P f ins xs)) = Some (fst (findOneAndUpdate P f ins xs))"
  using assms by (induction xs) (auto split: prod.splits)

lemma findOneAndUpdate_length:
  "length (snd (findOneAndUpdate P f ins xs)) = (if find P xs = None then Suc (length xs) else length xs)"
  by (induction xs) (auto split: prod.splits)

lemma findOneAndUpdate_others:
  assumes "\<not> P y" and "P ins" and "\<And>x. P x \<Longrightarrow> P (f x)"
  shows "y \<in> set (snd (findOneAndUpdate P f ins xs)) \<longleftrightarrow> y \<in> set xs"
  using assms by (induction xs) (auto split: prod.splits)

lemma findOneAndUpdate_filter_others:
  assumes "P ins" and "\<And>x. P x \<Longrightarrow> P (f x)" and "\<And>y. Q y \<Longrightarrow> \<not> P y"
  shows "filter Q (snd (findOneAndUpdate P f ins xs)) = filter Q xs"
  using assms by (induction xs) (auto split: prod.splits)

lemma findOneAndDelete_find:
  assumes "distinct (map k xs)" and "\<And>x. P x \<longleftrightarrow> k x = c"
  shows "find P (findOneAndDelete P xs) = None"
  using assms by (induction xs) (auto simp: find_None_iff image_iff)

lemma findOneAndDelete_subset: "set (findOneAndDelete P xs) \<subseteq> set xs"
  by (induction xs) auto

lemma findOneAndDelete_distinct:
  "distinct (map k xs) \<Longrightarrow> distinct (map k (findOneAndDelete P xs))"
  using findOneAndDelete_subset[of P] by (induction xs) (auto simp: image_iff)

lemma findOneAndDelete_others:
  "\<not> P y \<Longrightarrow> y \<in> set (findOneAndDelete P xs) \<longleftrightarrow> y \<in> set xs"
  by (induction xs) auto

section \<open>Facts about the save\<close>

lemma put_progress_invalid: "put_progress now u p None d = (Inl ValidationFailed, d)"
  by (simp add: put_progress_def)

lemma put_progress_missing:
  "find (\<lambda>z. pid z = p) (puzzles d) = None \<Longrightarrow>
   put_progress now u p (Some placed) d = (Inl PuzzleNotFound, d)"
  by (simp add: put_progress_def)

lemma setProgress_key [simp]:
  "userId (setProgress placed c now r) = userId r"
  "puzzleId (setProgress placed c now r) = puzzleId r"
  "createdAt (setProgress placed c now r) = createdAt r"
  "placedPieceIds (setProgress placed c now r) = placed"
  "isCompleted (setProgress placed c now r) = c"
  "completedAt (setProgress placed c now r) = completionStamp c now"
  "updatedAt (setProgress placed c now r) = now"
  by (simp_all add: setProgress_def)

lemma newProgress_key [simp]:
  "userId (newProgress u p placed c now) = u"
  "puzzleId (newProgress u p placed c now) = p"
  "createdAt (newProgress u p placed c now) = now"
  "placedPieceIds (newProgress u p placed c now) = placed"
  "isCompleted (newProgress u p placed c now) = c"
  "completedAt (newProgress u p placed c now) = completionStamp c now"
  "updatedAt (newProgress u p placed c now) = now"
  by (simp_all add: newProgress_def)

lemma put_progress_found:
  assumes "find (\<lambda>z. pid z = p) (puzzles d) = Some pz"
  shows "put_progress now u p (Some placed) d =
     (Inr \<lparr>message = (if isCompletedBy pz placed then ''Puzzle completed!'' else ''Progress saved''),
           sv_placedPieceIds = placed,
           sv_isCompleted = isCompletedBy pz placed,
           sv_completedAt = completionStamp (isCompletedBy pz placed) now\<rparr>,
      d\<lparr>progress := snd (findOneAndUpdate (\<lambda>r. userId r = u \<and> puzzleId r = p)
                           (setProgress placed (isCompletedBy pz placed) now)
                           (newProgress u p placed (isCompletedBy pz placed) now)
                           (progress d))\<rparr>)"
proof -
  let ?R = "findOneAndUpdate (\<lambda>r. userId r = u \<and> puzzleId r = p)
                           (setProgress placed (isCompletedBy pz placed) now)
                           (newProgress u p placed (isCompletedBy pz placed) now)
                           (progress d)"
  have flds: "placedPieceIds (fst ?R) = placed" "isCompleted (fst ?R) = isCompletedBy pz placed"
       "completedAt (fst ?R) = completionStamp (isCompletedBy pz placed) now"
    by (simp_all add: findOneAndUpdate_fst split: option.splits)
  obtain doc recs where R: "?R = (doc, recs)"
    by (cases ?R)
  from flds have doc: "placedPieceIds doc = placed" "isCompleted doc = isCompletedBy pz placed"
       "completedAt doc = completionStamp (isCompletedBy pz placed) now"
    unfolding R by simp_all
  show ?thesis
    using assms doc R by (simp add: put_progress_def Let_def)
qed

lemma put_progress_stored:
  assumes "find (\<lambda>z. pid z = p) (puzzles d) = Some pz"
  shows "get_progress u p (snd (put_progress now u p (Some placed) d)) =
     Some (case get_progress u p d of
             None \<Rightarrow> newProgress u p placed (isCompletedBy pz placed) now
           | Some r \<Rightarrow> setProgress placed (isCompletedBy pz placed) now r)"
  by (simp add: put_progress_found[OF assms] get_progress_def findOneAndUpdate_find findOneAndUpdate_fst)

lemma put_progress_frame:
  assumes "find (\<lambda>z. pid z = p) (puzzles d) = Some pz"
  shows "puzzles (snd (put_progress now u p (Some placed) d)) = puzzles d"
    and "users (snd (put_progress now u p (Some placed) d)) = users d"
  by (simp_all add: put_progress_found[OF assms])

lemma put_progress_others:
  assumes "find (\<lambda>z. pid z = p) (puzzles d) = Some pz"
    and "\<And>r. Q r \<Longrightarrow> \<not> (userId r = u \<and> puzzleId r = p)"
  shows "filter Q (progress (snd (put_progress now u p (Some placed) d))) = filter Q (progress d)"
  using assms(2)
  by (simp add: put_progress_found[OF assms(1)])
     (rule findOneAndUpdate_filter_others, simp_all)

lemmas ex_defs = levelA_def levelB_def levelC_def levelE_def freeUser_def doneA_def emptyA_def
  staleA_def db_played_def db_touched_def db_stale_def db_fresh_def db_gap_def

lemmas fetch_defs = get_puzzle_def levelLocked_def previousPuzzle_def dailyLimitReached_def
  tierOf_def hasExistingProgress_def puzzlesStartedToday_def countDocuments_def
  startOfDay_def msPerDay_def

lemmas save_defs = put_progress_def isCompletedBy_def totalPieces_def completionStamp_def
  setProgress_def newProgress_def get_progress_def


section \<open>Facts about the reset and the single-level fetch\<close>

lemma delete_progress_get:
  assumes "uniqueProgress d"
  shows "get_progress u p (delete_progress u p d) = None"
proof -
  have "find (\<lambda>r. userId r = u \<and> puzzleId r = p)
          (findOneAndDelete (\<lambda>r. userId r = u \<and> puzzleId r = p) (progress d)) = None"
    using assms unfolding uniqueProgress_def
    by (intro findOneAndDelete_find[where k = "\<lambda>r. (userId r, puzzleId r)" and c = "(u, p)"]) auto
  then show ?thesis
    by (simp add: get_progress_def delete_progress_def)
qed

lemma find_SomeD:
  "find P xs = Some x \<Longrightarrow> P x \<and> x \<in> set xs"
  by (induction xs) (auto split: if_splits)

lemma get_puzzle_progress:
  assumes "find (\<lambda>p. pid p = i \<and> isActive p) (puzzles d) = Some p"
  shows "find (\<lambda>r. userId r = u \<and> puzzleId r = pid p) (progress d) = get_progress u i d"
  using find_SomeD[OF assms] by (simp add: get_progress_def)

lemma get_puzzle_found:
  assumes "find (\<lambda>p. pid p = i \<and> isActive p) (puzzles d) = Some p"
  shows "get_puzzle now u i d =
     (if levelLocked d u p then Inl LevelLocked
      else if dailyLimitReached now u (get_progress u i d) d then Inl DailyLimit
      else Inr (p, get_progress u i d))"
  using assms by (simp add: get_puzzle_def Let_def get_puzzle_progress[OF assms])

lemma get_puzzle_missing:
  "find (\<lambda>p. pid p = i \<and> isActive p) (puzzles d) = None \<Longrightarrow> get_puzzle now u i d = Inl PuzzleNotFound"
  by (simp add: get_puzzle_def)

section \<open>Saves and the two gates\<close>

text \<open>In the store \<open>db_played\<close> level C is locked for user 7 and level B is out of
  the daily quota: the single-level fetch refuses both. A save to either level is
  accepted all the same and leaves a record behind.\<close>

theorem save_gate_counterexample:
  "get_puzzle 90000000 7 3 db_played = Inl LevelLocked
   \<and> get_progress 7 3 db_played = None
   \<and> fst (put_progress 90000000 7 3 (Some [''p1'']) db_played) =
       Inr \<lparr>message = ''Progress saved'', sv_placedPieceIds = [''p1''],
            sv_isCompleted = False, sv_completedAt = None\<rparr>
   \<and> get_progress 7 3 (snd (put_progress 90000000 7 3 (Some [''p1'']) db_played)) =
       Some \<lparr>userId = 7, puzzleId = 3, placedPieceIds = [''p1''], isCompleted = False,
             completedAt = None, createdAt = 90000000, updatedAt = 90000000\<rparr>
   \<and> get_puzzle 90000000 7 2 db_played = Inl DailyLimit
   \<and> get_progress 7 2 db_played = None
   \<and> fst (put_progress 90000000 7 2 (Some [''p1'']) db_played) =
       Inr \<lparr>message = ''Progress saved'', sv_placedPieceIds = [''p1''],
            sv_isCompleted = False, sv_completedAt = None\<rparr>
   \<and> get_progress 7 2 (snd (put_progress 90000000 7 2 (Some [''p1'']) db_played)) =
       Some \<lparr>userId = 7, puzzleId = 2, placedPieceIds = [''p1''], isCompleted = False,
             completedAt = None, createdAt = 90000000, updatedAt = 90000000\<rparr>"
  by (simp add: fetch_defs save_defs ex_defs)


text \<open>Claim C1, as the code has it. A save does not pass through the unlock check or
  the daily quota. Whenever the body is well formed and a level with the id exists, the
  save succeeds and the record of the user for the level is persisted with the pieces
  of the body. This holds for every store and user, so also when the level is locked
  for the user and when it is a new level for a free user whose quota is used up.\<close>

theorem save_not_gated:
  assumes "find (\<lambda>z. pid z = p) (puzzles d) = Some pz"
  shows "\<exists>v r. fst (put_progress now u p (Some placed) d) = Inr v
           \<and> sv_placedPieceIds v = placed
           \<and> get_progress u p (snd (put_progress now u p (Some placed) d)) = Some r
           \<and> userId r = u \<and> puzzleId r = p \<and> placedPieceIds r = placed"
proof -
  have "fst (put_progress now u p (Some placed) d) =
      Inr \<lparr>message = (if isCompletedBy pz placed then ''Puzzle completed!'' else ''Progress saved''),
           sv_placedPieceIds = placed,
           sv_isCompleted = isCompletedBy pz placed,
           sv_completedAt = completionStamp (isCompletedBy pz placed) now\<rparr>"
    by (simp add: put_progress_found[OF assms])
  moreover obtain r where "get_progress u p (snd (put_progress now u p (Some placed) d)) = Some r"
      "userId r = u" "puzzleId r = p" "placedPieceIds r = placed"
  proof (cases "get_progress u p d")
    case None
    then show ?thesis
      using that put_progress_stored[OF assms, of u now placed] by simp
  next
    case (Some r0)
    then have "userId r0 = u \<and> puzzleId r0 = p"
      using find_SomeD[of "\<lambda>r. userId r = u \<and> puzzleId r = p" "progress d" r0]
      by (simp add: get_progress_def)
    then show ?thesis
      using that Some put_progress_stored[OF assms, of u now placed] by simp
  qed
  ultimately show ?thesis
    by simp
qed

theorem save_not_gated_witness:
  "find (\<lambda>z. pid z = 3) (puzzles db_played) = Some levelC
   \<and> get_puzzle 90000000 7 3 db_played = Inl LevelLocked
   \<and> find (\<lambda>z. pid z = 2) (puzzles db_played) = Some levelB
   \<and> get_puzzle 90000000 7 2 db_played = Inl DailyLimit
   \<and> (\<exists>v r. fst (put_progress 90000000 7 3 (Some [''p1'']) db_played) = Inr v
          \<and> sv_placedPieceIds v = [''p1'']
          \<and> get_progress 7 3 (snd (put_progress 90000000 7 3 (Some [''p1'']) db_played)) = Some r
          \<and> userId r = 7 \<and> puzzleId r = 3 \<and> placedPieceIds r = [''p1''])
   \<and> (\<exists>v r. fst (put_progress 90000000 7 2 (Some [''p1'']) db_played) = Inr v
          \<and> sv_placedPieceIds v = [''p1'']
          \<and> get_progress 7 2 (snd (put_progress 90000000 7 2 (Some [''p1'']) db_played)) = Some r
          \<and> userId r = 7 \<and> puzzleId r = 2 \<and> placedPieceIds r = [''p1''])"
proof -
  have c: "find (\<lambda>z. pid z = 3) (puzzles db_played) = Some levelC"
    by (simp add: ex_defs)
  have b: "find (\<lambda>z. pid z = 2) (puzzles db_played) = Some levelB"
    by (simp add: ex_defs)
  have g: "get_puzzle 90000000 7 3 db_played = Inl LevelLocked"
    "get_puzzle 90000000 7 2 db_played = Inl DailyLimit"
    by (simp_all add: fetch_defs ex_defs)
  show ?thesis
    using c b g save_not_gated[OF c, of 90000000 7 "[''p1'']"]
      save_not_gated[OF b, of 90000000 7 "[''p1'']"]
    by simp
qed

section \<open>The daily quota and existing progress\<close>

text \<open>In the store \<open>db_touched\<close> user 7 has a record for level A, saved today with
  no piece placed. The record exists, and the fetch of level A is still refused with
  the daily limit: the record itself is the one the count finds.\<close>

theorem empty_record_counterexample:
  "get_progress 7 1 db_touched =
     Some \<lparr>userId = 7, puzzleId = 1, placedPieceIds = [], isCompleted = False,
           completedAt = None, createdAt = 86500000, updatedAt = 86500000\<rparr>
   \<and> get_puzzle 90000000 7 1 db_touched = Inl DailyLimit"
  by (simp add: fetch_defs get_progress_def ex_defs)

text \<open>Claim C2, as the code has it. On the single-level fetch the quota check is
  bypassed whenever the user's record for the level holds at least one placed piece;
  the daily-limit denial can only be raised when the user has no record for the level
  or a record with no placed piece. A record with no placed piece does not bypass the
  check: for a free user on an active, unlocked level with such a record the fetch is
  refused exactly when at least one record of the user was created today, returns the
  level when none was, and is always refused when that record itself was created
  today.\<close>

theorem quota_bypass_needs_piece:
  "(\<forall>r. get_progress u i d = Some r \<and> placedPieceIds r \<noteq> [] \<longrightarrow>
        get_puzzle now u i d \<noteq> Inl DailyLimit)
   \<and> (get_puzzle now u i d = Inl DailyLimit \<longrightarrow>
        get_progress u i d = None
        \<or> (\<exists>r. get_progress u i d = Some r \<and> placedPieceIds r = []))
   \<and> (\<forall>p r. find (\<lambda>p. pid p = i \<and> isActive p) (puzzles d) = Some p
             \<and> \<not> levelLocked d u p
             \<and> tierOf (find (\<lambda>x. uid x = u) (users d)) = ''free''
             \<and> get_progress u i d = Some r \<and> placedPieceIds r = [] \<longrightarrow>
          (get_puzzle now u i d = Inl DailyLimit \<longleftrightarrow>
             length (filter (\<lambda>r. userId r = u \<and> createdAt r \<ge> startOfDay now) (progress d)) \<ge> 1)
          \<and> (length (filter (\<lambda>r. userId r = u \<and> createdAt r \<ge> startOfDay now) (progress d)) = 0 \<longrightarrow>
               get_puzzle now u i d = Inr (p, Some r))
          \<and> (createdAt r \<ge> startOfDay now \<longrightarrow> get_puzzle now u i d = Inl DailyLimit))"
proof (intro conjI allI impI)
  fix r assume "get_progress u i d = Some r \<and> placedPieceIds r \<noteq> []"
  then show "get_puzzle now u i d \<noteq> Inl DailyLimit"
    by (cases "find (\<lambda>p. pid p = i \<and> isActive p) (puzzles d)")
       (simp_all add: get_puzzle_missing get_puzzle_found dailyLimitReached_def
          hasExistingProgress_def)
next
  assume "get_puzzle now u i d = Inl DailyLimit"
  then show "get_progress u i d = None
        \<or> (\<exists>r. get_progress u i d = Some r \<and> placedPieceIds r = [])"
    by (cases "find (\<lambda>p. pid p = i \<and> isActive p) (puzzles d)")
       (auto simp: get_puzzle_missing get_puzzle_found dailyLimitReached_def
          hasExistingProgress_def split: if_splits option.splits)
next
  fix p r
  assume h: "find (\<lambda>p. pid p = i \<and> isActive p) (puzzles d) = Some p
             \<and> \<not> levelLocked d u p
             \<and> tierOf (find (\<lambda>x. uid x = u) (users d)) = ''free''
             \<and> get_progress u i d = Some r \<and> placedPieceIds r = []"
  then have found: "find (\<lambda>p. pid p = i \<and> isActive p) (puzzles d) = Some p"
    by simp
  have fetch: "get_puzzle now u i d =
      (if length (filter (\<lambda>r. userId r = u \<and> createdAt r \<ge> startOfDay now) (progress d)) \<ge> 1
       then Inl DailyLimit else Inr (p, Some r))"
    using h by (simp add: get_puzzle_found[OF found] dailyLimitReached_def hasExistingProgress_def
          puzzlesStartedToday_def countDocuments_def)
  show "get_puzzle now u i d = Inl DailyLimit \<longleftrightarrow>
      length (filter (\<lambda>r. userId r = u \<and> createdAt r \<ge> startOfDay now) (progress d)) \<ge> 1"
    by (simp add: fetch)
  show "get_puzzle now u i d = Inr (p, Some r)"
    if "length (filter (\<lambda>r. userId r = u \<and> createdAt r \<ge> startOfDay now) (progress d)) = 0"
    using that by (simp add: fetch)
  show "get_puzzle now u i d = Inl DailyLimit" if today: "createdAt r \<ge> startOfDay now"
  proof -
    have "r \<in> set (progress d)" "userId r = u"
      using h find_SomeD[of "\<lambda>r. userId r = u \<and> puzzleId r = i" "progress d" r]
      by (simp_all add: get_progress_def)
    then have "r \<in> set (filter (\<lambda>r. userId r = u \<and> createdAt r \<ge> startOfDay now) (progress d))"
      using today by simp
    then have "length (filter (\<lambda>r. userId r = u \<and> createdAt r \<ge> startOfDay now) (progress d)) \<ge> 1"
      by (cases "filter (\<lambda>r. userId r = u \<and> createdAt r \<ge> startOfDay now) (progress d)") auto
    then show ?thesis
      by (simp add: fetch)
  qed
qed

theorem quota_bypass_needs_piece_witness:
  "get_progress 7 1 db_played = Some doneA \<and> placedPieceIds doneA \<noteq> []
   \<and> get_puzzle 90000000 7 1 db_played \<noteq> Inl DailyLimit
   \<and> find (\<lambda>p. pid p = 1 \<and> isActive p) (puzzles db_touched) = Some levelA
   \<and> \<not> levelLocked db_touched 7 levelA
   \<and> tierOf (find (\<lambda>x. uid x = 7) (users db_touched)) = ''free''
   \<and> get_progress 7 1 db_touched = Some emptyA \<and> placedPieceIds emptyA = []
   \<and> createdAt emptyA \<ge> startOfDay 90000000
   \<and> get_puzzle 90000000 7 1 db_touched = Inl DailyLimit
   \<and> find (\<lambda>p. pid p = 1 \<and> isActive p) (puzzles db_stale) = Some levelA
   \<and> \<not> levelLocked db_stale 7 levelA
   \<and> tierOf (find (\<lambda>x. uid x = 7) (users db_stale)) = ''free''
   \<and> get_progress 7 1 db_stale = Some staleA \<and> placedPieceIds staleA = []
   \<and> length (filter (\<lambda>r. userId r = 7 \<and> createdAt r \<ge> startOfDay 90000000)
                (progress db_stale)) = 0
   \<and> get_puzzle 90000000 7 1 db_stale = Inr (levelA, Some staleA)"
proof -
  have a: "get_progress 7 1 db_played = Some doneA \<and> placedPieceIds doneA \<noteq> []"
    by (simp add: get_progress_def ex_defs)
  have t: "find (\<lambda>p. pid p = 1 \<and> isActive p) (puzzles db_touched) = Some levelA"
    "\<not> levelLocked db_touched 7 levelA"
    "tierOf (find (\<lambda>x. uid x = 7) (users db_touched)) = ''free''"
    "get_progress 7 1 db_touched = Some emptyA" "placedPieceIds emptyA = []"
    "createdAt emptyA \<ge> startOfDay 90000000"
    by (simp_all add: fetch_defs get_progress_def ex_defs)
  have s: "find (\<lambda>p. pid p = 1 \<and> isActive p) (puzzles db_stale) = Some levelA"
    "\<not> levelLocked db_stale 7 levelA"
    "tierOf (find (\<lambda>x. uid x = 7) (users db_stale)) = ''free''"
    "get_progress 7 1 db_stale = Some staleA" "placedPieceIds staleA = []"
    "length (filter (\<lambda>r. userId r = 7 \<and> createdAt r \<ge> startOfDay 90000000)
               (progress db_stale)) = 0"
    by (simp_all add: fetch_defs get_progress_def ex_defs)
  have "get_puzzle 90000000 7 1 db_played \<noteq> Inl DailyLimit"
    using quota_bypass_needs_piece[of 7 1 db_played 90000000] a by blast
  moreover have "get_puzzle 90000000 7 1 db_touched = Inl DailyLimit"
    using quota_bypass_needs_piece[of 7 1 db_touched 90000000] t by blast
  moreover have "get_puzzle 90000000 7 1 db_stale = Inr (levelA, Some staleA)"
    using quota_bypass_needs_piece[of 7 1 db_stale 90000000] s by blast
  ultimately show ?thesis
    using a t s by simp
qed

section \<open>Completion on save\<close>

text \<open>In the store \<open>db_played\<close> user 7 has completed level A. A later save with one
  piece sets \<open>completedAt\<close> back to null.\<close>

theorem completedAt_cleared_counterexample:
  "get_progress 7 1 db_played =
     Some \<lparr>userId = 7, puzzleId = 1, placedPieceIds = [''p1'', ''p2'', ''p3'', ''p4''],
           isCompleted = True, completedAt = Some 86500000,
           createdAt = 86500000, updatedAt = 86500000\<rparr>
   \<and> get_progress 7 1 (snd (put_progress 90000000 7 1 (Some [''p1'']) db_played)) =
     Some \<lparr>userId = 7, puzzleId = 1, placedPieceIds = [''p1''],
           isCompleted = False, completedAt = None,
           createdAt = 86500000, updatedAt = 90000000\<rparr>"
  by (simp add: save_defs ex_defs)

text \<open>Claim C3, as the code has it. For a record whose \<open>completedAt\<close> is not null,
  the next save keeps it non-null exactly when it supplies at least rows times columns
  pieces, and then stamps it with the time of that save; a save with fewer pieces sets
  \<open>completed\<close> to false and \<open>completedAt\<close> to null. A reset deletes the whole
  record.\<close>

theorem completedAt_follows_save:
  assumes "find (\<lambda>z. pid z = p) (puzzles d) = Some pz"
    and "get_progress u p d = Some r"
    and "completedAt r \<noteq> None"
    and "uniqueProgress d"
  shows "\<exists>r'. get_progress u p (snd (put_progress now u p (Some placed) d)) = Some r'
           \<and> (int (length placed) \<ge> gridRows pz * gridCols pz \<longrightarrow>
                 isCompleted r' \<and> completedAt r' = Some now)
           \<and> (int (length placed) < gridRows pz * gridCols pz \<longrightarrow>
                 \<not> isCompleted r' \<and> completedAt r' = None)
           \<and> get_progress u p (delete_progress u p d) = None"
  using put_progress_stored[OF assms(1), of u now placed] assms(2) delete_progress_get[OF assms(4), of u p]
  by (auto simp: isCompletedBy_def totalPieces_def completionStamp_def)

theorem completedAt_follows_save_witness:
  "find (\<lambda>z. pid z = 1) (puzzles db_played) = Some levelA
   \<and> get_progress 7 1 db_played = Some doneA
   \<and> completedAt doneA \<noteq> None
   \<and> uniqueProgress db_played
   \<and> int (length [''p1'', ''p2'', ''p3'', ''p4'']) \<ge> gridRows levelA * gridCols levelA
   \<and> int (length [''p1'']) < gridRows levelA * gridCols levelA
   \<and> (\<exists>r'. get_progress 7 1 (snd (put_progress 90000000 7 1
                 (Some [''p1'', ''p2'', ''p3'', ''p4'']) db_played)) = Some r'
          \<and> isCompleted r' \<and> completedAt r' = Some 90000000)
   \<and> (\<exists>r'. get_progress 7 1 (snd (put_progress 90000000 7 1 (Some [''p1'']) db_played)) = Some r'
          \<and> \<not> isCompleted r' \<and> completedAt r' = None)
   \<and> get_progress 7 1 (delete_progress 7 1 db_played) = None"
proof -
  have a: "find (\<lambda>z. pid z = 1) (puzzles db_played) = Some levelA"
    by (simp add: ex_defs)
  have b: "get_progress 7 1 db_played = Some doneA"
    by (simp add: get_progress_def ex_defs)
  have c: "completedAt doneA \<noteq> None"
    by (simp add: ex_defs)
  have e: "uniqueProgress db_played"
    by (simp add: uniqueProgress_def ex_defs)
  have f: "int (length [''p1'', ''p2'', ''p3'', ''p4'']) \<ge> gridRows levelA * gridCols levelA"
    "int (length [''p1'']) < gridRows levelA * gridCols levelA"
    by (simp_all add: ex_defs)
  show ?thesis
    using a b c e f
      completedAt_follows_save[OF a b c e, of 90000000 "[''p1'', ''p2'', ''p3'', ''p4'']"]
      completedAt_follows_save[OF a b c e, of 90000000 "[''p1'']"]
    by auto
qed

text \<open>Two saves of the same four pieces to the 2 by 2 level A, at times 100 and 200:
  both complete the level, and the second replaces the stamp of the first.\<close>

theorem restamp_counterexample:
  "fst (put_progress 100 7 1 (Some [''p1'', ''p2'', ''p3'', ''p4'']) db_fresh) =
     Inr \<lparr>message = ''Puzzle completed!'', sv_placedPieceIds = [''p1'', ''p2'', ''p3'', ''p4''],
          sv_isCompleted = True, sv_completedAt = Some 100\<rparr>
   \<and> fst (put_progress 200 7 1 (Some [''p1'', ''p2'', ''p3'', ''p4''])
          (snd (put_progress 100 7 1 (Some [''p1'', ''p2'', ''p3'', ''p4'']) db_fresh))) =
     Inr \<lparr>message = ''Puzzle completed!'', sv_placedPieceIds = [''p1'', ''p2'', ''p3'', ''p4''],
          sv_isCompleted = True, sv_completedAt = Some 200\<rparr>
   \<and> get_progress 7 1 (snd (put_progress 200 7 1 (Some [''p1'', ''p2'', ''p3'', ''p4''])
          (snd (put_progress 100 7 1 (Some [''p1'', ''p2'', ''p3'', ''p4'']) db_fresh)))) =
     Some \<lparr>userId = 7, puzzleId = 1, placedPieceIds = [''p1'', ''p2'', ''p3'', ''p4''],
           isCompleted = True, completedAt = Some 200, createdAt = 100, updatedAt = 200\<rparr>"
  by (simp add: save_defs ex_defs)

text \<open>Claim C4, as the code has it. Two saves in a row with the same pieces give the
  same \<open>completed\<close> both times. \<open>completedAt\<close> is null both times when the pieces
  are below the threshold; otherwise each save stamps it with its own time, in the
  response and in the store, so the two stamps agree only when the two times do.\<close>

theorem resave_same_pieces:
  assumes "find (\<lambda>z. pid z = p) (puzzles d) = Some pz"
  shows "\<exists>v1 v2 r1 r2.
           fst (put_progress t1 u p (Some placed) d) = Inr v1
         \<and> fst (put_progress t2 u p (Some placed)
                  (snd (put_progress t1 u p (Some placed) d))) = Inr v2
         \<and> get_progress u p (snd (put_progress t1 u p (Some placed) d)) = Some r1
         \<and> get_progress u p (snd (put_progress t2 u p (Some placed)
                  (snd (put_progress t1 u p (Some placed) d)))) = Some r2
         \<and> sv_isCompleted v1 = isCompletedBy pz placed
         \<and> sv_isCompleted v2 = isCompletedBy pz placed
         \<and> isCompleted r1 = isCompletedBy pz placed
         \<and> isCompleted r2 = isCompletedBy pz placed
         \<and> sv_completedAt v1 = (if isCompletedBy pz placed then Some t1 else None)
         \<and> sv_completedAt v2 = (if isCompletedBy pz placed then Some t2 else None)
         \<and> completedAt r1 = sv_completedAt v1
         \<and> completedAt r2 = sv_completedAt v2"
proof -
  let ?d1 = "snd (put_progress t1 u p (Some placed) d)"
  have found1: "find (\<lambda>z. pid z = p) (puzzles ?d1) = Some pz"
    using assms by (simp add: put_progress_frame[OF assms])
  let ?c = "isCompletedBy pz placed"
  let ?v1 = "\<lparr>message = (if ?c then ''Puzzle completed!'' else ''Progress saved''),
              sv_placedPieceIds = placed, sv_isCompleted = ?c,
              sv_completedAt = completionStamp ?c t1\<rparr>"
  let ?v2 = "\<lparr>message = (if ?c then ''Puzzle completed!'' else ''Progress saved''),
              sv_placedPieceIds = placed, sv_isCompleted = ?c,
              sv_completedAt = completionStamp ?c t2\<rparr>"
  have v1: "fst (put_progress t1 u p (Some placed) d) = Inr ?v1"
    by (simp add: put_progress_found[OF assms])
  have v2: "fst (put_progress t2 u p (Some placed) ?d1) = Inr ?v2"
    by (simp only: put_progress_found[OF found1] fst_conv)
  obtain r1 where r1: "get_progress u p ?d1 = Some r1" "isCompleted r1 = ?c"
      "completedAt r1 = completionStamp ?c t1"
    using put_progress_stored[OF assms, of u t1 placed] by (auto split: option.splits)
  obtain r2 where r2: "get_progress u p (snd (put_progress t2 u p (Some placed) ?d1)) = Some r2"
      "isCompleted r2 = ?c" "completedAt r2 = completionStamp ?c t2"
    using put_progress_stored[OF found1, of u t2 placed] by (auto split: option.splits)
  have "sv_isCompleted ?v1 = ?c" "sv_isCompleted ?v2 = ?c"
    "sv_completedAt ?v1 = (if ?c then Some t1 else None)"
    "sv_completedAt ?v2 = (if ?c then Some t2 else None)"
    "completedAt r1 = sv_completedAt ?v1" "completedAt r2 = sv_completedAt ?v2"
    using r1 r2 by (simp_all add: completionStamp_def)
  with v1 v2 r1 r2 show ?thesis
    by blast
qed

theorem resave_same_pieces_witness:
  "find (\<lambda>z. pid z = 1) (puzzles db_fresh) = Some levelA
   \<and> (\<exists>v1 v2. fst (put_progress 100 7 1 (Some [''p1'', ''p2'', ''p3'', ''p4'']) db_fresh) = Inr v1
         \<and> fst (put_progress 200 7 1 (Some [''p1'', ''p2'', ''p3'', ''p4''])
                  (snd (put_progress 100 7 1 (Some [''p1'', ''p2'', ''p3'', ''p4'']) db_fresh))) = Inr v2
         \<and> sv_isCompleted v1 = sv_isCompleted v2
         \<and> sv_completedAt v1 = Some 100 \<and> sv_completedAt v2 = Some 200)"
proof -
  have a: "find (\<lambda>z. pid z = 1) (puzzles db_fresh) = Some levelA"
    by (simp add: ex_defs)
  have c: "isCompletedBy levelA [''p1'', ''p2'', ''p3'', ''p4'']"
    by (simp add: isCompletedBy_def totalPieces_def ex_defs)
  obtain v1 v2 where
    "fst (put_progress 100 7 1 (Some [''p1'', ''p2'', ''p3'', ''p4'']) db_fresh) = Inr v1"
    "fst (put_progress 200 7 1 (Some [''p1'', ''p2'', ''p3'', ''p4''])
            (snd (put_progress 100 7 1 (Some [''p1'', ''p2'', ''p3'', ''p4'']) db_fresh))) = Inr v2"
    "sv_isCompleted v1 = isCompletedBy levelA [''p1'', ''p2'', ''p3'', ''p4'']"
    "sv_isCompleted v2 = isCompletedBy levelA [''p1'', ''p2'', ''p3'', ''p4'']"
    "sv_completedAt v1 = (if isCompletedBy levelA [''p1'', ''p2'', ''p3'', ''p4''] then Some 100 else None)"
    "sv_completedAt v2 = (if isCompletedBy levelA [''p1'', ''p2'', ''p3'', ''p4''] then Some 200 else None)"
    using resave_same_pieces[OF a, of 100 7 "[''p1'', ''p2'', ''p3'', ''p4'']" 200] by blast
  then show ?thesis
    using a c by auto
qed

text \<open>Four copies of one piece id complete the 2 by 2 level A, although the list has
  a single distinct entry.\<close>

theorem duplicates_count_counterexample:
  "fst (put_progress 100 7 1 (Some [''p1'', ''p1'', ''p1'', ''p1'']) db_fresh) =
     Inr \<lparr>message = ''Puzzle completed!'', sv_placedPieceIds = [''p1'', ''p1'', ''p1'', ''p1''],
          sv_isCompleted = True, sv_completedAt = Some 100\<rparr>
   \<and> get_progress 7 1 (snd (put_progress 100 7 1 (Some [''p1'', ''p1'', ''p1'', ''p1'']) db_fresh)) =
     Some \<lparr>userId = 7, puzzleId = 1, placedPieceIds = [''p1'', ''p1'', ''p1'', ''p1''],
           isCompleted = True, completedAt = Some 100, createdAt = 100, updatedAt = 100\<rparr>
   \<and> find (\<lambda>z. pid z = 1) (puzzles db_fresh) = Some levelA
   \<and> gridRows levelA * gridCols levelA = 4
   \<and> card (set [''p1'', ''p1'', ''p1'', ''p1'']) = 1"
  by (simp add: save_defs ex_defs)

text \<open>Claim C5, as the code has it. The stored \<open>completed\<close> flag equals whether the
  number of entries of the supplied list, duplicates included, is at least rows times
  columns. For a list without duplicates this is the number of distinct entries.
  Exactly rows times columns entries give true, one entry fewer gives false.\<close>

theorem completed_by_length:
  assumes "find (\<lambda>z. pid z = p) (puzzles d) = Some pz"
  shows "\<exists>v r. fst (put_progress now u p (Some placed) d) = Inr v
           \<and> get_progress u p (snd (put_progress now u p (Some placed) d)) = Some r
           \<and> sv_isCompleted v = isCompleted r
           \<and> isCompleted r = (int (length placed) \<ge> gridRows pz * gridCols pz)
           \<and> (distinct placed \<longrightarrow>
                isCompleted r = (int (card (set placed)) \<ge> gridRows pz * gridCols pz))
           \<and> (int (length placed) = gridRows pz * gridCols pz \<longrightarrow> isCompleted r)
           \<and> (int (length placed) = gridRows pz * gridCols pz - 1 \<longrightarrow> \<not> isCompleted r)"
  unfolding put_progress_stored[OF assms]
  by (simp add: put_progress_found[OF assms] isCompletedBy_def totalPieces_def distinct_card
           split: option.splits)

theorem completed_by_length_witness:
  "find (\<lambda>z. pid z = 1) (puzzles db_fresh) = Some levelA
   \<and> distinct [''p1'', ''p2'', ''p3'', ''p4'']
   \<and> int (length [''p1'', ''p2'', ''p3'', ''p4'']) = gridRows levelA * gridCols levelA
   \<and> int (length [''p1'', ''p2'', ''p3'']) = gridRows levelA * gridCols levelA - 1
   \<and> (\<exists>r. get_progress 7 1 (snd (put_progress 100 7 1
               (Some [''p1'', ''p2'', ''p3'', ''p4'']) db_fresh)) = Some r \<and> isCompleted r)
   \<and> (\<exists>r. get_progress 7 1 (snd (put_progress 100 7 1
               (Some [''p1'', ''p2'', ''p3'']) db_fresh)) = Some r \<and> \<not> isCompleted r)"
proof -
  have a: "find (\<lambda>z. pid z = 1) (puzzles db_fresh) = Some levelA"
    by (simp add: ex_defs)
  have b: "distinct [''p1'', ''p2'', ''p3'', ''p4'']"
    "int (length [''p1'', ''p2'', ''p3'', ''p4'']) = gridRows levelA * gridCols levelA"
    "int (length [''p1'', ''p2'', ''p3'']) = gridRows levelA * gridCols levelA - 1"
    by (simp_all add: ex_defs)
  show ?thesis
    using a b
      completed_by_length[OF a, of 100 7 "[''p1'', ''p2'', ''p3'', ''p4'']"]
      completed_by_length[OF a, of 100 7 "[''p1'', ''p2'', ''p3'']"]
    by blast
qed

section \<open>Facts about the unlock check and the listing\<close>

lemma find_unique:
  assumes "distinct (map k xs)" and "x \<in> set xs" and "P x"
    and "\<And>y. y \<in> set xs \<Longrightarrow> P y \<Longrightarrow> k y = k x"
  shows "find P xs = Some x"
proof -
  have "\<exists>y. find P xs = Some y"
    using assms(2,3) by (cases "find P xs") (auto simp: find_None_iff)
  then obtain y where y: "find P xs = Some y"
    by blast
  then have "P y" "y \<in> set xs"
    using find_SomeD[OF y] by simp_all
  then have "k y = k x"
    using assms(4) by simp
  then have "y = x"
    using assms(1) \<open>y \<in> set xs\<close> assms(2) by (meson distinct_map inj_on_def)
  then show ?thesis
    using y by simp
qed

lemma levelLocked_iff:
  "levelLocked d u p \<longleftrightarrow>
     levelOrder p > 1 \<and>
     (\<exists>q. previousPuzzle d p = Some q \<and>
          \<not> (\<exists>r \<in> set (progress d). userId r = u \<and> puzzleId r = pid q \<and> isCompleted r))"
  by (auto simp: levelLocked_def find_None_iff split: option.splits)

lemma previousPuzzle_unique:
  assumes "uniquePuzzles d" and "q \<in> set (puzzles d)" and "isActive q"
    and "levelOrder q = levelOrder p - 1"
  shows "previousPuzzle d p = Some q"
  unfolding previousPuzzle_def
  using assms by (intro find_unique[where k = levelOrder]) (auto simp: uniquePuzzles_def)

lemma find_by_id:
  assumes "uniquePuzzles d" and "p \<in> set (puzzles d)" and "isActive p"
  shows "find (\<lambda>x. pid x = pid p \<and> isActive x) (puzzles d) = Some p"
  using assms by (intro find_unique[where k = pid]) (auto simp: uniquePuzzles_def)

lemma fetch_locked_iff:
  assumes "uniquePuzzles d" and "p \<in> set (puzzles d)" and "isActive p"
  shows "get_puzzle now u (pid p) d = Inl LevelLocked \<longleftrightarrow> levelLocked d u p"
  by (simp add: get_puzzle_found[OF find_by_id[OF assms]])

lemma Some_eq_map_option:
  "Some n = map_option f x \<longleftrightarrow> (\<exists>z. x = Some z \<and> f z = n)"
  by (cases x) auto

lemma in_filter_truthy:
  "Some n \<in> set (filter truthy xs) \<longleftrightarrow> n \<noteq> 0 \<and> Some n \<in> set xs"
  by auto

lemma Some_in_completedLevels:
  "Some n \<in> completedLevels pzs recs \<longleftrightarrow>
     n \<noteq> 0 \<and> (\<exists>r \<in> set recs. isCompleted r \<and>
                  (\<exists>pz. find (\<lambda>pz. pid pz = puzzleId r) pzs = Some pz \<and> levelOrder pz = n))"
proof -
  have "Some n \<in> completedLevels pzs recs \<longleftrightarrow>
     n \<noteq> 0 \<and> Some n \<in> (\<lambda>r. map_option levelOrder (find (\<lambda>pz. pid pz = puzzleId r) pzs)) ` {r \<in> set recs. isCompleted r}"
    unfolding completedLevels_def in_filter_truthy by simp
  also have "\<dots> \<longleftrightarrow> n \<noteq> 0 \<and> (\<exists>r \<in> set recs. isCompleted r \<and>
                  (\<exists>pz. find (\<lambda>pz. pid pz = puzzleId r) pzs = Some pz \<and> levelOrder pz = n))"
    unfolding image_iff Some_eq_map_option by blast
  finally show ?thesis .
qed

lemma puzzleStatus_sel:
  "ps_puzzle (puzzleStatus pm cl p) = p"
  "isUnlocked (puzzleStatus pm cl p) = (levelOrder p = 1 \<or> Some (levelOrder p - 1) \<in> cl)"
  by (simp_all add: puzzleStatus_def Let_def)

lemma active_sorted_set:
  "set (sort_key levelOrder (filter isActive pzs)) = {x \<in> set pzs. isActive x}"
  by simp

lemma active_sorted_distinct:
  "distinct (map k pzs) \<Longrightarrow> distinct (map k (sort_key levelOrder (filter isActive pzs)))"
  by (simp add: distinct_map inj_on_def)

lemma find_active_sorted:
  assumes "distinct (map pid pzs)"
  shows "find (\<lambda>pz. pid pz = i) (sort_key levelOrder (filter isActive pzs)) = Some x
     \<longleftrightarrow> x \<in> set pzs \<and> isActive x \<and> pid x = i"
proof
  assume "find (\<lambda>pz. pid pz = i) (sort_key levelOrder (filter isActive pzs)) = Some x"
  from find_SomeD[OF this] show "x \<in> set pzs \<and> isActive x \<and> pid x = i"
    by simp
next
  assume a: "x \<in> set pzs \<and> isActive x \<and> pid x = i"
  show "find (\<lambda>pz. pid pz = i) (sort_key levelOrder (filter isActive pzs)) = Some x"
  proof (rule find_unique[where k = pid])
    show "distinct (map pid (sort_key levelOrder (filter isActive pzs)))"
      by (rule active_sorted_distinct[OF assms])
    show "x \<in> set (sort_key levelOrder (filter isActive pzs))"
      using a by simp
    show "pid x = i"
      using a by simp
    show "\<And>y. y \<in> set (sort_key levelOrder (filter isActive pzs)) \<Longrightarrow> pid y = i \<Longrightarrow> pid y = pid x"
      using a by simp
  qed
qed

lemma listing_unlocked_iff:
  assumes "distinct (map pid (puzzles d))" and "levelOrder p \<noteq> 1"
  shows "isUnlocked (puzzleStatus pm
            (completedLevels (sort_key levelOrder (filter isActive (puzzles d)))
                             (filter (\<lambda>r. userId r = u) (progress d))) p) \<longleftrightarrow>
         levelOrder p - 1 \<noteq> 0 \<and>
         (\<exists>r \<in> set (progress d). userId r = u \<and> isCompleted r \<and>
            (\<exists>q \<in> set (puzzles d). isActive q \<and> pid q = puzzleId r
                 \<and> levelOrder q = levelOrder p - 1))"
  using assms(2)
  unfolding puzzleStatus_sel Some_in_completedLevels find_active_sorted[OF assms(1)]
  by simp blast

lemma list_puzzles_entry:
  assumes "e \<in> set (list_puzzles u d)" and "ps_puzzle e = p"
  shows "e = puzzleStatus (progressMap (filter (\<lambda>r. userId r = u) (progress d)))
            (completedLevels (sort_key levelOrder (filter isActive (puzzles d)))
                             (filter (\<lambda>r. userId r = u) (progress d))) p"
  using assms by (auto simp: list_puzzles_def Let_def puzzleStatus_sel)

lemma list_puzzles_has_entry:
  assumes "p \<in> set (puzzles d)" and "isActive p"
  shows "puzzleStatus (progressMap (filter (\<lambda>r. userId r = u) (progress d)))
            (completedLevels (sort_key levelOrder (filter isActive (puzzles d)))
                             (filter (\<lambda>r. userId r = u) (progress d))) p
         \<in> set (list_puzzles u d)"
  using assms by (simp add: list_puzzles_def Let_def)

lemma distinct_map_inj:
  "distinct (map f xs) \<Longrightarrow> x \<in> set xs \<Longrightarrow> y \<in> set xs \<Longrightarrow> f x = f y \<Longrightarrow> x = y"
  by (auto simp: distinct_map dest: inj_onD)

lemma fetch_gap_unlocked:
  "previousPuzzle d p = None \<Longrightarrow> \<not> levelLocked d u p"
  by (simp add: levelLocked_def)

lemma listing_gap_locked:
  assumes "distinct (map pid (puzzles d))" and "levelOrder p \<noteq> 1"
    and "\<not> (\<exists>q \<in> set (puzzles d). isActive q \<and> levelOrder q = levelOrder p - 1)"
  shows "\<not> isUnlocked (puzzleStatus pm
            (completedLevels (sort_key levelOrder (filter isActive (puzzles d)))
                             (filter (\<lambda>r. userId r = u) (progress d))) p)"
  unfolding listing_unlocked_iff[OF assms(1,2)] using assms(3) by blast

section \<open>The store constraints are kept by the routes\<close>

lemma findOneAndUpdate_keys:
  assumes "\<And>x. k (f x) = k x" and "k ins = c"
  shows "k ` set (snd (findOneAndUpdate P f ins xs)) \<subseteq> insert c (k ` set xs)"
proof (induction xs)
  case Nil
  then show ?case using assms(2) by simp
next
  case (Cons x xs)
  then show ?case
    using assms(1) by (cases "findOneAndUpdate P f ins xs") auto
qed

lemma findOneAndUpdate_distinct:
  assumes "distinct (map k xs)" and "\<And>x. P x \<longleftrightarrow> k x = c" and "\<And>x. k (f x) = k x"
    and "k ins = c"
  shows "distinct (map k (snd (findOneAndUpdate P f ins xs)))"
  using assms(1)
proof (induction xs)
  case Nil
  then show ?case by simp
next
  case (Cons x xs)
  have keys: "k ` set (snd (findOneAndUpdate P f ins xs)) \<subseteq> insert c (k ` set xs)"
    by (rule findOneAndUpdate_keys[OF assms(3,4)])
  show ?case
  proof (cases "P x")
    case True
    then show ?thesis using Cons.prems assms(3) by simp
  next
    case False
    then have "k x \<noteq> c" using assms(2) by simp
    then have "k x \<notin> k ` set (snd (findOneAndUpdate P f ins xs))"
      using keys Cons.prems by auto
    then show ?thesis
      using False Cons by (cases "findOneAndUpdate P f ins xs") simp
  qed
qed

lemma put_progress_unique:
  assumes "uniqueProgress d"
  shows "uniqueProgress (snd (put_progress now u p body d))"
proof (cases body)
  case None
  then show ?thesis using assms by (simp add: put_progress_invalid)
next
  case (Some placed)
  show ?thesis
  proof (cases "find (\<lambda>z. pid z = p) (puzzles d)")
    case None
    then show ?thesis using assms Some by (simp add: put_progress_missing)
  next
    case (Some pz)
    have "distinct (map (\<lambda>r. (userId r, puzzleId r))
            (snd (findOneAndUpdate (\<lambda>r. userId r = u \<and> puzzleId r = p)
                    (setProgress placed (isCompletedBy pz placed) now)
                    (newProgress u p placed (isCompletedBy pz placed) now) (progress d))))"
      using assms unfolding uniqueProgress_def
      by (intro findOneAndUpdate_distinct[where c = "(u, p)"]) auto
    then show ?thesis
      using \<open>body = Some placed\<close> by (simp add: put_progress_found[OF Some] uniqueProgress_def)
  qed
qed

lemma delete_progress_unique:
  "uniqueProgress d \<Longrightarrow> uniqueProgress (delete_progress u p d)"
  by (simp add: uniqueProgress_def delete_progress_def findOneAndDelete_distinct)

lemma startOfDay_bounds:
  "startOfDay now \<le> now" "now < startOfDay now + 86400000" "startOfDay now mod 86400000 = 0"
  by (simp_all add: startOfDay_def msPerDay_def)

section \<open>The unlock policy\<close>

text \<open>Claim C6 fails on the listing. In the store \<open>db_gap\<close> level E has order 5 and
  no level has order 4. The single-level fetch finds no previous level and returns
  level E to user 7; the listing reports the same level with \<open>isUnlocked = False\<close>,
  because its set of completed orders can only hold orders of active levels.\<close>

theorem gap_level_listed_locked:
  "previousPuzzle db_gap levelE = None
   \<and> get_puzzle 90000000 7 5 db_gap = Inr (levelE, None)
   \<and> list_puzzles 7 db_gap =
       [\<lparr>ps_puzzle = levelA, isUnlocked = True, ps_isCompleted = False, ps_progress = None\<rparr>,
        \<lparr>ps_puzzle = levelE, isUnlocked = False, ps_isCompleted = False, ps_progress = None\<rparr>]"
  by (simp add: fetch_defs list_puzzles_def puzzleStatus_def completedLevels_def progressMap_def
        get_progress_def ex_defs)

text \<open>Claim C7. The store keeps level ids and level orders unique. For an active level
  \<open>p\<close>: when its order is 1 the fetch never answers \<open>LevelLocked\<close> and the listing
  reports it unlocked, for any user and any progress. When its order is above 1 and an
  active level \<open>q\<close> sits one position before it, the fetch answers \<open>LevelLocked\<close>
  exactly when the user has no completed record for \<open>q\<close>, and the listing reports
  \<open>p\<close> unlocked exactly when the user has one. Every active level has an entry in
  the listing.\<close>

theorem unlock_policy:
  assumes "uniquePuzzles d" and "p \<in> set (puzzles d)" and "isActive p"
  shows "(levelOrder p = 1 \<longrightarrow>
            get_puzzle now u (pid p) d \<noteq> Inl LevelLocked
            \<and> (\<forall>e \<in> set (list_puzzles u d). ps_puzzle e = p \<longrightarrow> isUnlocked e))
       \<and> (\<forall>q. levelOrder p > 1 \<and> q \<in> set (puzzles d) \<and> isActive q
                \<and> levelOrder q = levelOrder p - 1 \<longrightarrow>
              (get_puzzle now u (pid p) d = Inl LevelLocked \<longleftrightarrow>
                 \<not> (\<exists>r \<in> set (progress d). userId r = u \<and> puzzleId r = pid q \<and> isCompleted r))
              \<and> (\<forall>e \<in> set (list_puzzles u d). ps_puzzle e = p \<longrightarrow>
                   (isUnlocked e \<longleftrightarrow>
                      (\<exists>r \<in> set (progress d). userId r = u \<and> puzzleId r = pid q \<and> isCompleted r))))
       \<and> (\<exists>e \<in> set (list_puzzles u d). ps_puzzle e = p)"
proof (intro conjI impI allI)
  assume one: "levelOrder p = 1"
  then have "\<not> levelLocked d u p"
    by (simp add: levelLocked_def)
  then show "get_puzzle now u (pid p) d \<noteq> Inl LevelLocked"
    by (simp add: fetch_locked_iff[OF assms])
  show "\<forall>e \<in> set (list_puzzles u d). ps_puzzle e = p \<longrightarrow> isUnlocked e"
  proof (intro ballI impI)
    fix e assume "e \<in> set (list_puzzles u d)" "ps_puzzle e = p"
    from list_puzzles_entry[OF this] show "isUnlocked e"
      using one by (simp add: puzzleStatus_sel)
  qed
next
  fix q
  assume h: "levelOrder p > 1 \<and> q \<in> set (puzzles d) \<and> isActive q
      \<and> levelOrder q = levelOrder p - 1"
  have prev: "previousPuzzle d p = Some q"
    using h by (intro previousPuzzle_unique[OF assms(1)]) simp_all
  show "get_puzzle now u (pid p) d = Inl LevelLocked \<longleftrightarrow>
      \<not> (\<exists>r \<in> set (progress d). userId r = u \<and> puzzleId r = pid q \<and> isCompleted r)"
    using h by (simp add: fetch_locked_iff[OF assms] levelLocked_iff prev)
  have ids: "distinct (map pid (puzzles d))" and ords: "distinct (map levelOrder (puzzles d))"
    using assms(1) by (simp_all add: uniquePuzzles_def)
  have same: "q' = q" if "q' \<in> set (puzzles d)" "levelOrder q' = levelOrder p - 1" for q'
    using distinct_map_inj[OF ords that(1), of q] that(2) h by simp
  show "\<forall>e \<in> set (list_puzzles u d). ps_puzzle e = p \<longrightarrow>
       (isUnlocked e \<longleftrightarrow>
          (\<exists>r \<in> set (progress d). userId r = u \<and> puzzleId r = pid q \<and> isCompleted r))"
  proof (intro ballI impI)
    fix e assume "e \<in> set (list_puzzles u d)" "ps_puzzle e = p"
    from list_puzzles_entry[OF this] have e: "e = puzzleStatus
            (progressMap (filter (\<lambda>r. userId r = u) (progress d)))
            (completedLevels (sort_key levelOrder (filter isActive (puzzles d)))
                             (filter (\<lambda>r. userId r = u) (progress d))) p" .
    have ne: "levelOrder p \<noteq> 1" "levelOrder p - 1 \<noteq> 0"
      using h by simp_all
    have "(\<exists>r \<in> set (progress d). userId r = u \<and> isCompleted r \<and>
            (\<exists>q' \<in> set (puzzles d). isActive q' \<and> pid q' = puzzleId r
                 \<and> levelOrder q' = levelOrder p - 1)) \<longleftrightarrow>
          (\<exists>r \<in> set (progress d). userId r = u \<and> puzzleId r = pid q \<and> isCompleted r)"
      (is "?L \<longleftrightarrow> ?R")
    proof
      assume ?L
      then obtain r q' where r: "r \<in> set (progress d)" "userId r = u" "isCompleted r"
        and q': "q' \<in> set (puzzles d)" "pid q' = puzzleId r" "levelOrder q' = levelOrder p - 1"
        by blast
      have "q' = q"
        by (rule same[OF q'(1) q'(3)])
      then show ?R
        using r q'(2) by (intro bexI[of _ r]) simp_all
    next
      assume ?R
      then obtain r where r: "r \<in> set (progress d)" "userId r = u" "puzzleId r = pid q"
          "isCompleted r"
        by blast
      have "\<exists>q' \<in> set (puzzles d). isActive q' \<and> pid q' = puzzleId r
                 \<and> levelOrder q' = levelOrder p - 1"
        using h r(3) by (intro bexI[of _ q]) simp_all
      then show ?L
        using r by (intro bexI[of _ r]) simp_all
    qed
    then show "isUnlocked e \<longleftrightarrow>
          (\<exists>r \<in> set (progress d). userId r = u \<and> puzzleId r = pid q \<and> isCompleted r)"
      using ne(2) by (simp only: e listing_unlocked_iff[OF ids ne(1)] not_False_eq_True simp_thms)
  qed
next
  show "\<exists>e \<in> set (list_puzzles u d). ps_puzzle e = p"
    by (rule bexI[OF _ list_puzzles_has_entry[OF assms(2,3)]]) (simp add: puzzleStatus_sel)
qed

theorem unlock_policy_witness:
  "uniquePuzzles db_played
   \<and> levelA \<in> set (puzzles db_played) \<and> isActive levelA \<and> levelOrder levelA = 1
   \<and> levelB \<in> set (puzzles db_played) \<and> isActive levelB \<and> levelOrder levelB > 1
   \<and> levelOrder levelA = levelOrder levelB - 1
   \<and> levelC \<in> set (puzzles db_played) \<and> isActive levelC \<and> levelOrder levelC > 1
   \<and> levelOrder levelB = levelOrder levelC - 1
   \<and> doneA \<in> set (progress db_played) \<and> userId doneA = 7 \<and> puzzleId doneA = pid levelA
   \<and> isCompleted doneA
   \<and> get_puzzle 90000000 7 (pid levelA) db_played \<noteq> Inl LevelLocked
   \<and> get_puzzle 90000000 7 (pid levelB) db_played \<noteq> Inl LevelLocked
   \<and> get_puzzle 90000000 7 (pid levelC) db_played = Inl LevelLocked"
proof -
  have u: "uniquePuzzles db_played"
    by (simp add: uniquePuzzles_def ex_defs)
  have a: "levelA \<in> set (puzzles db_played)" "isActive levelA" "levelOrder levelA = 1"
    by (simp_all add: ex_defs)
  have b: "levelB \<in> set (puzzles db_played)" "isActive levelB" "levelOrder levelB > 1"
    "levelOrder levelA = levelOrder levelB - 1"
    by (simp_all add: ex_defs)
  have c: "levelC \<in> set (puzzles db_played)" "isActive levelC" "levelOrder levelC > 1"
    "levelOrder levelB = levelOrder levelC - 1"
    by (simp_all add: ex_defs)
  have r: "doneA \<in> set (progress db_played)" "userId doneA = 7" "puzzleId doneA = pid levelA"
    "isCompleted doneA"
    by (simp_all add: ex_defs)
  have n: "\<not> (\<exists>r \<in> set (progress db_played). userId r = 7 \<and> puzzleId r = pid levelB \<and> isCompleted r)"
    by (simp add: ex_defs)
  have "get_puzzle 90000000 7 (pid levelA) db_played \<noteq> Inl LevelLocked"
    using unlock_policy[OF u a(1,2), of 90000000 7] a(3) by blast
  moreover have "get_puzzle 90000000 7 (pid levelB) db_played \<noteq> Inl LevelLocked"
    using unlock_policy[OF u b(1,2), of 90000000 7] a b r by blast
  moreover have "get_puzzle 90000000 7 (pid levelC) db_played = Inl LevelLocked"
    using unlock_policy[OF u c(1,2), of 90000000 7] b c n by blast
  ultimately show ?thesis
    using u a b c r by simp
qed

section \<open>The quota governor\<close>

text \<open>Claim C8. For a free-tier user who fetches an existing, active, unlocked level on
  which they have no record, the fetch is refused with \<open>DailyLimit\<close> exactly when at
  least one record of that user has \<open>createdAt\<close> at or after \<open>startOfDay now\<close>; with
  none, the level is returned. \<open>startOfDay now\<close> is the last multiple of a day's
  86400000 milliseconds that is not after \<open>now\<close>, which is 00:00:00 UTC of the current
  date.\<close>

theorem quota_governor:
  assumes "find (\<lambda>p. pid p = i \<and> isActive p) (puzzles d) = Some p"
    and "\<not> levelLocked d u p"
    and "tierOf (find (\<lambda>x. uid x = u) (users d)) = ''free''"
    and "get_progress u i d = None"
  shows "(get_puzzle now u i d = Inl DailyLimit \<longleftrightarrow>
            length (filter (\<lambda>r. userId r = u \<and> createdAt r \<ge> startOfDay now) (progress d)) \<ge> 1)
       \<and> (length (filter (\<lambda>r. userId r = u \<and> createdAt r \<ge> startOfDay now) (progress d)) = 0 \<longrightarrow>
            get_puzzle now u i d = Inr (p, None))
       \<and> startOfDay now \<le> now \<and> now < startOfDay now + 86400000
       \<and> startOfDay now mod 86400000 = 0"
  using assms(2,3,4) startOfDay_bounds[of now]
  by (simp add: get_puzzle_found[OF assms(1)] dailyLimitReached_def hasExistingProgress_def
        puzzlesStartedToday_def countDocuments_def)

theorem quota_governor_witness:
  "find (\<lambda>p. pid p = 2 \<and> isActive p) (puzzles db_played) = Some levelB
   \<and> \<not> levelLocked db_played 7 levelB
   \<and> tierOf (find (\<lambda>x. uid x = 7) (users db_played)) = ''free''
   \<and> get_progress 7 2 db_played = None
   \<and> length (filter (\<lambda>r. userId r = 7 \<and> createdAt r \<ge> startOfDay 90000000) (progress db_played)) \<ge> 1
   \<and> get_puzzle 90000000 7 2 db_played = Inl DailyLimit
   \<and> find (\<lambda>p. pid p = 1 \<and> isActive p) (puzzles db_fresh) = Some levelA
   \<and> \<not> levelLocked db_fresh 7 levelA
   \<and> tierOf (find (\<lambda>x. uid x = 7) (users db_fresh)) = ''free''
   \<and> get_progress 7 1 db_fresh = None
   \<and> length (filter (\<lambda>r. userId r = 7 \<and> createdAt r \<ge> startOfDay 90000000) (progress db_fresh)) = 0
   \<and> get_puzzle 90000000 7 1 db_fresh = Inr (levelA, None)"
proof -
  have a: "find (\<lambda>p. pid p = 2 \<and> isActive p) (puzzles db_played) = Some levelB"
    "\<not> levelLocked db_played 7 levelB"
    "tierOf (find (\<lambda>x. uid x = 7) (users db_played)) = ''free''"
    "get_progress 7 2 db_played = None"
    by (simp_all add: fetch_defs get_progress_def ex_defs)
  have a5: "length (filter (\<lambda>r. userId r = 7 \<and> createdAt r \<ge> startOfDay 90000000) (progress db_played)) \<ge> 1"
    by (simp add: startOfDay_def msPerDay_def ex_defs)
  have b: "find (\<lambda>p. pid p = 1 \<and> isActive p) (puzzles db_fresh) = Some levelA"
    "\<not> levelLocked db_fresh 7 levelA"
    "tierOf (find (\<lambda>x. uid x = 7) (users db_fresh)) = ''free''"
    "get_progress 7 1 db_fresh = None"
    by (simp_all add: fetch_defs get_progress_def ex_defs)
  have b5: "length (filter (\<lambda>r. userId r = 7 \<and> createdAt r \<ge> startOfDay 90000000) (progress db_fresh)) = 0"
    by (simp add: ex_defs)
  show ?thesis
    using a a5 b b5 quota_governor[OF a, of 90000000] quota_governor[OF b, of 90000000]
    by blast
qed

section \<open>The order of the checks of the fetch\<close>

text \<open>Claim C10. The fetch answers NotFound exactly when no active level has the id.
  When the level is found and locked for the user the answer is \<open>LevelLocked\<close>,
  whatever the state of the daily quota. An answer \<open>DailyLimit\<close> implies that the
  requested level exists, is active and is not locked for the user.\<close>

theorem fetch_check_order:
  "(get_puzzle now u i d = Inl PuzzleNotFound \<longleftrightarrow>
      \<not> (\<exists>p \<in> set (puzzles d). pid p = i \<and> isActive p))
   \<and> (\<forall>p. find (\<lambda>p. pid p = i \<and> isActive p) (puzzles d) = Some p \<and> levelLocked d u p \<longrightarrow>
         get_puzzle now u i d = Inl LevelLocked)
   \<and> (get_puzzle now u i d = Inl DailyLimit \<longrightarrow>
        (\<exists>p \<in> set (puzzles d). find (\<lambda>p. pid p = i \<and> isActive p) (puzzles d) = Some p
            \<and> pid p = i \<and> isActive p \<and> \<not> levelLocked d u p))"
proof (cases "find (\<lambda>p. pid p = i \<and> isActive p) (puzzles d)")
  case None
  then have "\<not> (\<exists>p \<in> set (puzzles d). pid p = i \<and> isActive p)"
    by (simp add: find_None_iff)
  then show ?thesis
    using None by (simp add: get_puzzle_missing)
next
  case (Some p)
  from find_SomeD[OF Some] have p: "p \<in> set (puzzles d)" "pid p = i" "isActive p"
    by simp_all
  have nf: "get_puzzle now u i d \<noteq> Inl PuzzleNotFound"
    by (simp add: get_puzzle_found[OF Some])
  have lk: "levelLocked d u p \<Longrightarrow> get_puzzle now u i d = Inl LevelLocked"
    by (simp add: get_puzzle_found[OF Some])
  have dl: "get_puzzle now u i d = Inl DailyLimit \<Longrightarrow> \<not> levelLocked d u p"
    by (simp add: get_puzzle_found[OF Some] split: if_splits)
  show ?thesis
    using Some p nf lk dl by auto
qed

theorem fetch_check_order_witness:
  "find (\<lambda>p. pid p = 3 \<and> isActive p) (puzzles db_played) = Some levelC
   \<and> levelLocked db_played 7 levelC
   \<and> dailyLimitReached 90000000 7 (get_progress 7 3 db_played) db_played
   \<and> get_puzzle 90000000 7 3 db_played = Inl LevelLocked
   \<and> get_puzzle 90000000 7 2 db_played = Inl DailyLimit
   \<and> find (\<lambda>p. pid p = 2 \<and> isActive p) (puzzles db_played) = Some levelB
   \<and> levelB \<in> set (puzzles db_played) \<and> pid levelB = 2 \<and> isActive levelB
   \<and> \<not> levelLocked db_played 7 levelB
   \<and> find (\<lambda>p. pid p = 9 \<and> isActive p) (puzzles db_played) = None
   \<and> get_puzzle 90000000 7 9 db_played = Inl PuzzleNotFound"
proof -
  have a: "find (\<lambda>p. pid p = 3 \<and> isActive p) (puzzles db_played) = Some levelC"
    "levelLocked db_played 7 levelC"
    "dailyLimitReached 90000000 7 (get_progress 7 3 db_played) db_played"
    by (simp_all add: fetch_defs get_progress_def ex_defs)
  have b: "get_puzzle 90000000 7 2 db_played = Inl DailyLimit"
    "find (\<lambda>p. pid p = 2 \<and> isActive p) (puzzles db_played) = Some levelB"
    by (simp_all add: fetch_defs ex_defs)
  have c: "find (\<lambda>p. pid p = 9 \<and> isActive p) (puzzles db_played) = None"
    "\<not> (\<exists>p \<in> set (puzzles db_played). pid p = 9 \<and> isActive p)"
    by (simp_all add: ex_defs)
  have "get_puzzle 90000000 7 3 db_played = Inl LevelLocked"
    using fetch_check_order[of 90000000 7 3 db_played] a by blast
  moreover have "levelB \<in> set (puzzles db_played) \<and> pid levelB = 2 \<and> isActive levelB
      \<and> \<not> levelLocked db_played 7 levelB"
    using fetch_check_order[of 90000000 7 2 db_played] b by auto
  moreover have "get_puzzle 90000000 7 9 db_played = Inl PuzzleNotFound"
    using fetch_check_order[of 90000000 7 9 db_played] c(2) by blast
  ultimately show ?thesis
    using a b c(1) by simp
qed

section \<open>The frame of a save, and reset\<close>

text \<open>Claim C9. The store keeps one record per user and level. A save to an existing
  record leaves its user, level and \<open>createdAt\<close> as they were: the saved record
  differs from the old one in \<open>placedPieceIds\<close>, \<open>isCompleted\<close> and
  \<open>completedAt\<close> only, apart from \<open>updatedAt\<close>, the write stamp of the store, which
  is not a field of the spec's ProgressRecord. The records of other users and levels
  are untouched. After a reset the record is gone, and the next save creates one whose
  \<open>createdAt\<close> is the time of that save.\<close>

theorem save_frame_and_reset:
  assumes "find (\<lambda>z. pid z = p) (puzzles d) = Some pz" and "uniqueProgress d"
  shows "(\<forall>r. get_progress u p d = Some r \<longrightarrow>
            (\<exists>r'. get_progress u p (snd (put_progress now u p (Some placed) d)) = Some r'
                 \<and> userId r' = userId r \<and> puzzleId r' = puzzleId r
                 \<and> createdAt r' = createdAt r
                 \<and> r'\<lparr>placedPieceIds := placedPieceIds r, isCompleted := isCompleted r,
                       completedAt := completedAt r, updatedAt := updatedAt r\<rparr> = r))
       \<and> filter (\<lambda>r. \<not> (userId r = u \<and> puzzleId r = p))
            (progress (snd (put_progress now u p (Some placed) d)))
          = filter (\<lambda>r. \<not> (userId r = u \<and> puzzleId r = p)) (progress d)
       \<and> get_progress u p (delete_progress u p d) = None
       \<and> (\<exists>r'. get_progress u p
                  (snd (put_progress now u p (Some placed) (delete_progress u p d))) = Some r'
              \<and> createdAt r' = now)"
proof (intro conjI allI impI)
  fix r assume r: "get_progress u p d = Some r"
  show "\<exists>r'. get_progress u p (snd (put_progress now u p (Some placed) d)) = Some r'
                 \<and> userId r' = userId r \<and> puzzleId r' = puzzleId r
                 \<and> createdAt r' = createdAt r
                 \<and> r'\<lparr>placedPieceIds := placedPieceIds r, isCompleted := isCompleted r,
                       completedAt := completedAt r, updatedAt := updatedAt r\<rparr> = r"
    by (simp add: put_progress_stored[OF assms(1)] r setProgress_def)
next
  show "filter (\<lambda>r. \<not> (userId r = u \<and> puzzleId r = p))
            (progress (snd (put_progress now u p (Some placed) d)))
          = filter (\<lambda>r. \<not> (userId r = u \<and> puzzleId r = p)) (progress d)"
    by (rule put_progress_others[OF assms(1)]) simp
next
  show none: "get_progress u p (delete_progress u p d) = None"
    by (rule delete_progress_get[OF assms(2)])
  have found: "find (\<lambda>z. pid z = p) (puzzles (delete_progress u p d)) = Some pz"
    using assms(1) by (simp add: delete_progress_def)
  show "\<exists>r'. get_progress u p
                  (snd (put_progress now u p (Some placed) (delete_progress u p d))) = Some r'
              \<and> createdAt r' = now"
    by (simp add: put_progress_stored[OF found] none)
qed

theorem save_frame_and_reset_witness:
  "find (\<lambda>z. pid z = 1) (puzzles db_played) = Some levelA
   \<and> uniqueProgress db_played
   \<and> get_progress 7 1 db_played = Some doneA
   \<and> createdAt doneA = 86500000
   \<and> (\<exists>r'. get_progress 7 1 (snd (put_progress 90000000 7 1 (Some [''p1'']) db_played)) = Some r'
          \<and> createdAt r' = 86500000)
   \<and> get_progress 7 1 (delete_progress 7 1 db_played) = None
   \<and> (\<exists>r'. get_progress 7 1
              (snd (put_progress 90000000 7 1 (Some [''p1'']) (delete_progress 7 1 db_played))) = Some r'
          \<and> createdAt r' = 90000000)"
proof -
  have a: "find (\<lambda>z. pid z = 1) (puzzles db_played) = Some levelA"
    by (simp add: ex_defs)
  have b: "uniqueProgress db_played"
    by (simp add: uniqueProgress_def ex_defs)
  have c: "get_progress 7 1 db_played = Some doneA" "createdAt doneA = 86500000"
    by (simp_all add: get_progress_def ex_defs)
  show ?thesis
    using a b c save_frame_and_reset[OF a b, of 7 90000000 "[''p1'']"]
    by auto
qed

end
